theory Spec2Isabelle
  imports Complex_Main
begin

section \<open>Array primitives used by the event matcher\<close>

text \<open>
  The source works on one-dimensional numpy integer arrays. They are modelled as
  \<open>int list\<close>; every numpy operation that can raise is a function into
  \<open>error + 'a\<close>, with \<open>Inl\<close> the exception.
\<close>

datatype error = ValueError | IndexError

definition UNMATCHED :: int where
  "UNMATCHED = - 999"

definition and_then :: "error + 'a \<Rightarrow> ('a \<Rightarrow> error + 'b) \<Rightarrow> error + 'b" where
  "and_then m f = (case m of Inl e \<Rightarrow> Inl e | Inr x \<Rightarrow> f x)"

fun for_each :: "('a \<Rightarrow> error + 'b) \<Rightarrow> 'a list \<Rightarrow> error + 'b list" where
  "for_each f [] = Inr []"
| "for_each f (x # xs) =
     and_then (f x) (\<lambda>y. and_then (for_each f xs) (\<lambda>ys. Inr (y # ys)))"

text \<open>Position of an index \<open>i\<close> in an array of length \<open>n\<close>: negative indices count
  from the end, anything else out of range raises IndexError.\<close>

definition np_index :: "nat \<Rightarrow> int \<Rightarrow> error + nat" where
  "np_index n i =
     (if 0 \<le> i \<and> i < int n then Inr (nat i)
      else if - int n \<le> i \<and> i < 0 then Inr (nat (int n + i))
      else Inl IndexError)"

text \<open>\<open>xs[i]\<close> and \<open>xs[i] = v\<close> for a scalar index.\<close>

definition np_get :: "'a list \<Rightarrow> int \<Rightarrow> error + 'a" where
  "np_get xs i = and_then (np_index (length xs) i) (\<lambda>k. Inr (xs ! k))"

definition np_set :: "'a list \<Rightarrow> int \<Rightarrow> 'a \<Rightarrow> error + 'a list" where
  "np_set xs i v = and_then (np_index (length xs) i) (\<lambda>k. Inr (xs[k := v]))"

text \<open>\<open>xs[idx]\<close> and \<open>xs[idx] = v\<close> for an integer index array \<open>idx\<close> and a scalar \<open>v\<close>.\<close>

definition np_take :: "'a list \<Rightarrow> int list \<Rightarrow> error + 'a list" where
  "np_take xs idx = for_each (np_get xs) idx"

fun np_fill :: "'a list \<Rightarrow> int list \<Rightarrow> 'a \<Rightarrow> error + 'a list" where
  "np_fill xs [] v = Inr xs"
| "np_fill xs (i # idx) v = and_then (np_set xs i v) (\<lambda>xs'. np_fill xs' idx v)"

text \<open>\<open>xs[flags]\<close> for a boolean array \<open>flags\<close>, which must be as long as \<open>xs\<close>.\<close>

definition np_mask :: "'a list \<Rightarrow> bool list \<Rightarrow> error + 'a list" where
  "np_mask xs flags =
     (if length flags \<noteq> length xs then Inl IndexError
      else Inr (map fst (filter snd (zip xs flags))))"

text \<open>The element-wise comparisons \<open>xs == v\<close>, \<open>xs != v\<close> and \<open>xs > v\<close>.\<close>

definition eq_mask :: "int list \<Rightarrow> int \<Rightarrow> bool list" where
  "eq_mask xs v = map (\<lambda>x. x = v) xs"

definition ne_mask :: "int list \<Rightarrow> int \<Rightarrow> bool list" where
  "ne_mask xs v = map (\<lambda>x. x \<noteq> v) xs"

definition gt_mask :: "int list \<Rightarrow> int \<Rightarrow> bool list" where
  "gt_mask xs v = map (\<lambda>x. x > v) xs"

text \<open>\<open>np.argwhere(flags)[:,0]\<close>: the positions where \<open>flags\<close> holds, ascending.\<close>

primrec argwhere_from :: "nat \<Rightarrow> bool list \<Rightarrow> int list" where
  "argwhere_from k [] = []"
| "argwhere_from k (b # bs) =
     (if b then int k # argwhere_from (Suc k) bs else argwhere_from (Suc k) bs)"

definition argwhere :: "bool list \<Rightarrow> int list" where
  "argwhere flags = argwhere_from 0 flags"

text \<open>\<open>np.argmin\<close>: the first position of the least element; raises on an empty array.\<close>

primrec argmin_from :: "int \<Rightarrow> nat \<Rightarrow> nat \<Rightarrow> int list \<Rightarrow> nat" where
  "argmin_from best pos k [] = pos"
| "argmin_from best pos k (x # xs) =
     (if x < best then argmin_from x k (Suc k) xs else argmin_from best pos (Suc k) xs)"

definition np_argmin :: "int list \<Rightarrow> error + int" where
  "np_argmin xs =
     (case xs of [] \<Rightarrow> Inl ValueError | x # rest \<Rightarrow> Inr (int (argmin_from x 0 1 rest)))"

text \<open>\<open>np.unique\<close> and \<open>np.setdiff1d\<close> against a scalar.\<close>

definition unique :: "int list \<Rightarrow> int list" where
  "unique xs = sort (remdups xs)"

definition setdiff1d :: "int list \<Rightarrow> int \<Rightarrow> int list" where
  "setdiff1d xs v = filter (\<lambda>x. x \<noteq> v) (unique xs)"

text \<open>\<open>xs - ys\<close> on arrays: element-wise for equal lengths, an array of length one is
  broadcast, any other pair of lengths raises ValueError.\<close>

definition np_sub :: "int list \<Rightarrow> int list \<Rightarrow> error + int list" where
  "np_sub xs ys =
     (if length xs = length ys then Inr (map (\<lambda>(x, y). x - y) (zip xs ys))
      else if length ys = 1 then Inr (map (\<lambda>x. x - hd ys) xs)
      else if length xs = 1 then Inr (map (\<lambda>y. hd xs - y) ys)
      else Inl ValueError)"

text \<open>\<open>xs[idx] = vals\<close> for an index array and a value array: the values are
  broadcast to the shape of the index (ValueError when that is impossible), then
  written one position at a time.\<close>

definition np_broadcast_to :: "'a list \<Rightarrow> nat \<Rightarrow> error + 'a list" where
  "np_broadcast_to vals n =
     (if length vals = n then Inr vals
      else if length vals = 1 then Inr (replicate n (hd vals))
      else Inl ValueError)"

fun np_put :: "'a list \<Rightarrow> (int \<times> 'a) list \<Rightarrow> error + 'a list" where
  "np_put xs [] = Inr xs"
| "np_put xs ((i, v) # ivs) = and_then (np_set xs i v) (\<lambda>xs'. np_put xs' ivs)"

definition np_assign :: "'a list \<Rightarrow> int list \<Rightarrow> 'a list \<Rightarrow> error + 'a list" where
  "np_assign xs idx vals =
     and_then (np_broadcast_to vals (length idx)) (\<lambda>vs. np_put xs (zip idx vs))"

section \<open>compare_events\<close>

text \<open>
  The events are sample indices, the threshold \<open>thr\<close> is a number of samples; both are
  integers here, as in the call of \<open>modelEvaluate\<close>.
\<close>

text \<open>Lines 114-122: every event is mapped to the nearest event of the other list.\<close>

definition nearest :: "int list \<Rightarrow> int list \<Rightarrow> error + int list" where
  "nearest events others =
     for_each (\<lambda>e. np_argmin (map (\<lambda>y. \<bar>y - e\<bar>) others)) events"

text \<open>Lines 126-138: where several pointers share a target \<open>u\<close>, all of them except the
  position the target points back to are set to \<open>-999\<close>.\<close>

definition resolve_one :: "int list \<Rightarrow> int list \<Rightarrow> int \<Rightarrow> error + int list" where
  "resolve_one other ptr u =
     (let indices = argwhere (eq_mask ptr u) in
      if length indices > 1
      then and_then (np_get other u) (\<lambda>keep. np_fill ptr (setdiff1d indices keep) UNMATCHED)
      else Inr ptr)"

fun resolve_loop :: "int list \<Rightarrow> int list \<Rightarrow> int list \<Rightarrow> error + int list" where
  "resolve_loop other ptr [] = Inr ptr"
| "resolve_loop other ptr (u # us) =
     and_then (resolve_one other ptr u) (\<lambda>ptr'. resolve_loop other ptr' us)"

text \<open>Lines 144, 147 and 150:
  \<open>ptr[indices[np.argwhere(other[ptr[indices]] == -999)[:,0]]] = -999\<close>.\<close>

definition drop_dangling :: "int list \<Rightarrow> int list \<Rightarrow> int list \<Rightarrow> error + int list" where
  "drop_dangling ptr indices other =
     and_then (np_take ptr indices) (\<lambda>targets.
     and_then (np_take other targets) (\<lambda>back.
     and_then (np_take indices (argwhere (eq_mask back UNMATCHED))) (\<lambda>dangling.
     np_fill ptr dangling UNMATCHED)))"

text \<open>Lines 153 and 164: \<open>predicted[b2a > -999] - annotated[a2b > -999]\<close>.\<close>

definition time_difference ::
  "int list \<Rightarrow> int list \<Rightarrow> int list \<Rightarrow> int list \<Rightarrow> error + int list" where
  "time_difference annotated predicted a2b b2a =
     and_then (np_mask predicted (gt_mask b2a UNMATCHED)) (\<lambda>p.
     and_then (np_mask annotated (gt_mask a2b UNMATCHED)) (\<lambda>a.
     np_sub p a))"

text \<open>Lines 158-161: the loop over \<open>ti\<close>, from the last time difference down to the first.\<close>

definition reject_one ::
  "int \<Rightarrow> int list \<Rightarrow> int list \<Rightarrow> int list \<Rightarrow> int list \<times> int list \<Rightarrow> nat
   \<Rightarrow> error + int list \<times> int list" where
  "reject_one thr time_diff indices_a2b indices_b2a s ti =
     (case s of (a2b, b2a) \<Rightarrow>
        and_then (np_get time_diff (int ti)) (\<lambda>d.
        if \<bar>d\<bar> > thr then
          and_then (np_get indices_b2a (int ti)) (\<lambda>i.
          and_then (np_set a2b i UNMATCHED) (\<lambda>a2b'.
          and_then (np_get indices_a2b (int ti)) (\<lambda>j.
          and_then (np_set b2a j UNMATCHED) (\<lambda>b2a'.
          Inr (a2b', b2a')))))
        else Inr (a2b, b2a)))"

fun reject_loop ::
  "int \<Rightarrow> int list \<Rightarrow> int list \<Rightarrow> int list \<Rightarrow> int list \<times> int list \<Rightarrow> nat list
   \<Rightarrow> error + int list \<times> int list" where
  "reject_loop thr time_diff indices_a2b indices_b2a s [] = Inr s"
| "reject_loop thr time_diff indices_a2b indices_b2a s (ti # tis) =
     and_then (reject_one thr time_diff indices_a2b indices_b2a s ti)
       (\<lambda>s'. reject_loop thr time_diff indices_a2b indices_b2a s' tis)"

definition compare_events ::
  "int list \<Rightarrow> int list \<Rightarrow> int \<Rightarrow> error + int list \<times> int list \<times> int list" where
  "compare_events annotated predicted thr =
     (if length annotated = 0 \<and> length predicted = 0 then Inr ([], [], [])
      else if length annotated \<noteq> 0 \<and> length predicted = 0 then
        Inr (replicate (length annotated) UNMATCHED, [],
             replicate (length annotated) UNMATCHED)
      else if length annotated = 0 \<and> length predicted \<noteq> 0 then
        Inr ([], replicate (length predicted) UNMATCHED,
             replicate (length predicted) UNMATCHED)
      else
        and_then (nearest annotated predicted) (\<lambda>a2b0.
        and_then (nearest predicted annotated) (\<lambda>b2a0.
        and_then (resolve_loop b2a0 a2b0 (unique a2b0)) (\<lambda>a2b1.
        and_then (resolve_loop a2b1 b2a0 (unique b2a0)) (\<lambda>b2a1.
        let indices_a2b = argwhere (gt_mask a2b1 UNMATCHED);
            indices_b2a = argwhere (gt_mask b2a1 UNMATCHED) in
        and_then (drop_dangling a2b1 indices_a2b b2a1) (\<lambda>a2b2.
        and_then (drop_dangling b2a1 indices_b2a a2b2) (\<lambda>b2a2.
        let indices_a2b = argwhere (gt_mask a2b2 UNMATCHED) in
        and_then (drop_dangling a2b2 indices_a2b b2a2) (\<lambda>a2b3.
        and_then (time_difference annotated predicted a2b3 b2a2) (\<lambda>time_diff.
        and_then (np_mask a2b3 (gt_mask a2b3 UNMATCHED)) (\<lambda>indices_a2b.
        and_then (np_mask b2a2 (gt_mask b2a2 UNMATCHED)) (\<lambda>indices_b2a.
        and_then (reject_loop thr time_diff indices_a2b indices_b2a (a2b3, b2a2)
                    (rev [0..<length time_diff])) (\<lambda>(a2b4, b2a3).
        and_then (time_difference annotated predicted a2b4 b2a3) (\<lambda>time_diff.
        Inr (a2b4, b2a3, time_diff))))))))))))))"

section \<open>MetricsGaitEvents\<close>

definition count_unmatched :: "int list \<Rightarrow> nat" where
  "count_unmatched ptr = length (filter (\<lambda>x. x = UNMATCHED) ptr)"

definition MetricsGaitEvents ::
  "int list \<Rightarrow> int list \<Rightarrow> int list \<Rightarrow> int list \<Rightarrow> error + nat \<times> nat \<times> int list" where
  "MetricsGaitEvents ipksGS_i ipksDUT_i targets_2_predictions predictions_2_targets =
     (let missed = count_unmatched targets_2_predictions;
          extra = count_unmatched predictions_2_targets;
          predicted_aligned = replicate (length ipksGS_i) UNMATCHED;
          matched_events = argwhere (ne_mask targets_2_predictions UNMATCHED) in
      and_then (np_mask ipksDUT_i (ne_mask predictions_2_targets UNMATCHED)) (\<lambda>vals.
      and_then (np_assign predicted_aligned matched_events vals) (\<lambda>predicted_aligned.
      Inr (missed, extra, predicted_aligned))))"

section \<open>modelEvaluate\<close>

text \<open>
  The network's output \<open>preds[:,:,0]\<close> and the labels \<open>t[:,:,0]\<close> are lists of
  windows, each a list of samples. scipy's \<open>find_peaks\<close> is external: it is a
  parameter, called with the height, prominence and distance limits of the source.
  The returned predicted time stamps are floats in the source, \<open>nan\<close> marking a
  missed event: \<open>None\<close> here.
\<close>

record totals =
  missedEvents :: nat
  extraEvents :: nat
  GSevents :: nat
  Differences :: "int list"
  ipksDUT :: "int option list"
  ipksGS :: "int list"

type_synonym peak_finder = "real list \<Rightarrow> real \<Rightarrow> real \<Rightarrow> nat \<Rightarrow> int list"

definition min_height :: real where
  "min_height = 5 / 100"

definition min_prominence :: real where
  "min_prominence = 4 / 100"

definition min_distance :: nat where
  "min_distance = 40"

text \<open>\<open>preds.shape[1]\<close>: the common length of the windows of a rectangular array.\<close>

definition window_length :: "real list list \<Rightarrow> nat" where
  "window_length preds = (case preds of [] \<Rightarrow> 0 | w # _ \<Rightarrow> length w)"

text \<open>Lines 269-277: the predicted and the target events of one window.\<close>

definition window_events ::
  "peak_finder \<Rightarrow> real list \<Rightarrow> real list \<Rightarrow> error + int list \<times> int list" where
  "window_events find_peaks predLabel targetLabel =
     (let ipksDUT_i = find_peaks predLabel min_height min_prominence min_distance in
      and_then (np_get predLabel 0) (\<lambda>first.
      let ipksDUT_i = (if first \<ge> min_height then [0] @ ipksDUT_i else ipksDUT_i) in
      and_then (np_get predLabel (- 1)) (\<lambda>last.
      let ipksDUT_i = (if last \<ge> min_height
                      then ipksDUT_i @ [int (length predLabel) - 1] else ipksDUT_i);
          ipksGS_i = argwhere (map (\<lambda>y. y = 1) targetLabel) in
      Inr (ipksGS_i, ipksDUT_i))))"

text \<open>Lines 291-296: conversion of \<open>-999\<close> to \<open>nan\<close> and the shift by \<open>s + 1\<close>.\<close>

definition shift_aligned :: "int \<Rightarrow> int \<Rightarrow> int option" where
  "shift_aligned s x = (if x = UNMATCHED then None else Some (s + x + 1))"

text \<open>Lines 244-281 of the loop body: the events of window \<open>i\<close>, matched and counted.
  The result is the target events, the aligned predicted events, the numbers of missed
  and extra events, and the time differences of the window.\<close>

type_synonym window_result = "int list \<times> int list \<times> nat \<times> nat \<times> int list"

definition window_result ::
  "peak_finder \<Rightarrow> real list list \<Rightarrow> real list list \<Rightarrow> nat \<Rightarrow> error + window_result" where
  "window_result find_peaks preds t i =
     and_then (np_get preds (int i)) (\<lambda>predLabel.
     and_then (np_get t (int i)) (\<lambda>targetLabel.
     and_then (window_events find_peaks predLabel targetLabel) (\<lambda>(ipksGS_i, ipksDUT_i).
     and_then (compare_events ipksGS_i ipksDUT_i 20)
       (\<lambda>(targets_2_predictions, predictions_2_targets, time_diff).
     and_then (MetricsGaitEvents ipksGS_i ipksDUT_i targets_2_predictions predictions_2_targets)
       (\<lambda>(missed, extra, ipksDUT_i).
     Inr (ipksGS_i, ipksDUT_i, missed, extra, time_diff))))))"

text \<open>Lines 283-299 of the loop body: the totals are updated, the events are shifted by
  \<open>s + 1\<close> and appended.\<close>

definition accumulate :: "int \<Rightarrow> totals \<Rightarrow> window_result \<Rightarrow> totals" where
  "accumulate s acc r =
     (case r of (ipksGS_i, ipksDUT_i, missed, extra, time_diff) \<Rightarrow>
        acc\<lparr> GSevents := GSevents acc + length ipksGS_i,
             missedEvents := missedEvents acc + missed,
             extraEvents := extraEvents acc + extra,
             Differences := Differences acc @ time_diff,
             ipksGS := ipksGS acc @ map (\<lambda>x. s + x + 1) ipksGS_i,
             ipksDUT := ipksDUT acc @ map (shift_aligned s) ipksDUT_i \<rparr>)"

definition evaluate_window ::
  "peak_finder \<Rightarrow> real list list \<Rightarrow> real list list \<Rightarrow> totals \<Rightarrow> nat \<Rightarrow> error + totals" where
  "evaluate_window find_peaks preds t acc i =
     (let s = int i * int (window_length preds) in
      and_then (window_result find_peaks preds t i) (\<lambda>r. Inr (accumulate s acc r)))"

fun window_loop ::
  "peak_finder \<Rightarrow> real list list \<Rightarrow> real list list \<Rightarrow> totals \<Rightarrow> nat list \<Rightarrow> error + totals" where
  "window_loop find_peaks preds t acc [] = Inr acc"
| "window_loop find_peaks preds t acc (i # rest) =
     and_then (evaluate_window find_peaks preds t acc i)
       (\<lambda>acc'. window_loop find_peaks preds t acc' rest)"

definition modelEvaluate ::
  "peak_finder \<Rightarrow> real list list \<Rightarrow> real list list
   \<Rightarrow> error + nat \<times> nat \<times> int option list \<times> int list" where
  "modelEvaluate find_peaks preds t =
     (let start = \<lparr> missedEvents = 0, extraEvents = 0, GSevents = 0, Differences = [],
                     ipksDUT = [], ipksGS = [] \<rparr> in
      and_then (window_loop find_peaks preds t start [0..<length preds]) (\<lambda>acc.
      Inr (extraEvents acc, missedEvents acc, ipksDUT acc, ipksGS acc)))"

text \<open>What \<open>find_peaks\<close> returns for a curve that has no local maximum between its
  first and its last sample.\<close>

definition no_peaks :: peak_finder where
  "no_peaks predLabel height prominence distance = []"

section \<open>Predicates used in the statements\<close>

text \<open>\<open>narrowed xs ys\<close>: \<open>ys\<close> is \<open>xs\<close> with some entries replaced by \<open>-999\<close>.\<close>

definition narrowed :: "int list \<Rightarrow> int list \<Rightarrow> bool" where
  "narrowed xs ys = list_all2 (\<lambda>x y. y = x \<or> y = UNMATCHED) xs ys"

section \<open>Auxiliary facts about the array primitives\<close>

lemma and_then_Inr_iff: "and_then m f = Inr y \<longleftrightarrow> (\<exists>x. m = Inr x \<and> f x = Inr y)"
  by (cases m) (simp_all add: and_then_def)

lemma and_then_Inr: "and_then (Inr x) f = f x"
  by (simp add: and_then_def)

lemma and_then_Inl: "and_then (Inl e) f = Inl e"
  by (simp add: and_then_def)

lemma for_each_Inr: "for_each f xs = Inr ys \<Longrightarrow> list_all2 (\<lambda>x y. f x = Inr y) xs ys"
  by (induction xs arbitrary: ys) (auto simp: and_then_Inr_iff)

lemma np_index_less: "np_index n i = Inr k \<Longrightarrow> k < n"
  by (auto simp: np_index_def split: if_splits)

lemma narrowed_refl: "narrowed xs xs"
  by (simp add: narrowed_def list_all2_same)

lemma narrowed_trans: "narrowed xs ys \<Longrightarrow> narrowed ys zs \<Longrightarrow> narrowed xs zs"
  unfolding narrowed_def list_all2_conv_all_nth by metis

lemma narrowed_length: "narrowed xs ys \<Longrightarrow> length ys = length xs"
  by (simp add: narrowed_def list_all2_lengthD)

lemma narrowed_update: "narrowed xs (xs[k := UNMATCHED])"
  unfolding narrowed_def list_all2_conv_all_nth
proof (intro conjI allI impI)
  show "length xs = length (xs[k := UNMATCHED])" by simp
next
  fix i assume "i < length xs"
  then show "xs[k := UNMATCHED] ! i = xs ! i \<or> xs[k := UNMATCHED] ! i = UNMATCHED"
    by (cases "i = k") simp_all
qed

lemma np_set_narrowed: "np_set xs i UNMATCHED = Inr ys \<Longrightarrow> narrowed xs ys"
  by (auto simp: np_set_def and_then_Inr_iff narrowed_update)

lemma np_fill_narrowed: "np_fill xs idx UNMATCHED = Inr ys \<Longrightarrow> narrowed xs ys"
proof (induction idx arbitrary: xs)
  case Nil
  then show ?case by (simp add: narrowed_refl)
next
  case (Cons i idx)
  then obtain xs' where "np_set xs i UNMATCHED = Inr xs'" and "np_fill xs' idx UNMATCHED = Inr ys"
    by (auto simp: and_then_Inr_iff)
  then show ?case
    using Cons.IH np_set_narrowed narrowed_trans by blast
qed

lemma resolve_one_narrowed: "resolve_one other ptr u = Inr ptr' \<Longrightarrow> narrowed ptr ptr'"
  by (auto simp: resolve_one_def Let_def and_then_Inr_iff narrowed_refl np_fill_narrowed
           split: if_splits)

lemma resolve_loop_narrowed: "resolve_loop other ptr us = Inr ptr' \<Longrightarrow> narrowed ptr ptr'"
proof (induction us arbitrary: ptr)
  case Nil
  then show ?case by (simp add: narrowed_refl)
next
  case (Cons u us)
  then obtain q where "resolve_one other ptr u = Inr q" and "resolve_loop other q us = Inr ptr'"
    by (auto simp: and_then_Inr_iff)
  then show ?case
    using Cons.IH resolve_one_narrowed narrowed_trans by blast
qed

lemma drop_dangling_narrowed: "drop_dangling ptr indices other = Inr ptr' \<Longrightarrow> narrowed ptr ptr'"
  by (auto simp: drop_dangling_def and_then_Inr_iff np_fill_narrowed)

lemma reject_one_narrowed:
  "reject_one thr td ia ib (a2b, b2a) ti = Inr (a2b', b2a') \<Longrightarrow> narrowed a2b a2b' \<and> narrowed b2a b2a'"
  by (auto simp: reject_one_def and_then_Inr_iff narrowed_refl np_set_narrowed split: if_splits)

lemma reject_loop_narrowed:
  "reject_loop thr td ia ib (a2b, b2a) tis = Inr (a2b', b2a') \<Longrightarrow> narrowed a2b a2b' \<and> narrowed b2a b2a'"
proof (induction tis arbitrary: a2b b2a)
  case Nil
  then show ?case by (simp add: narrowed_refl)
next
  case (Cons ti tis)
  then obtain p q where "reject_one thr td ia ib (a2b, b2a) ti = Inr (p, q)"
     and "reject_loop thr td ia ib (p, q) tis = Inr (a2b', b2a')"
    by (auto simp: and_then_Inr_iff)
  then show ?case
    using Cons.IH reject_one_narrowed narrowed_trans by blast
qed

lemma argmin_from_less: "pos < k \<Longrightarrow> argmin_from best pos k xs < k + length xs"
proof (induction xs arbitrary: best pos k)
  case Nil
  then show ?case by simp
next
  case (Cons x xs)
  have "argmin_from x k (Suc k) xs < Suc k + length xs"
    by (rule Cons.IH) simp
  moreover have "argmin_from best pos (Suc k) xs < Suc k + length xs"
    by (rule Cons.IH) (use Cons.prems in simp)
  ultimately show ?case by simp
qed

lemma np_argmin_range: "0 \<le> m \<and> m < int (length xs)" if "np_argmin xs = Inr m"
proof (cases xs)
  case Nil
  then show ?thesis using that by (simp add: np_argmin_def)
next
  case (Cons x rest)
  have "argmin_from x 0 1 rest < 1 + length rest"
    by (rule argmin_from_less) simp
  then show ?thesis using that Cons by (auto simp: np_argmin_def)
qed

lemma nearest_range:
  assumes "nearest events others = Inr ptr"
  shows "length ptr = length events \<and> (\<forall>x\<in>set ptr. 0 \<le> x \<and> x < int (length others))"
proof -
  have l: "list_all2 (\<lambda>e m. np_argmin (map (\<lambda>y. \<bar>y - e\<bar>) others) = Inr m) events ptr"
    using assms for_each_Inr unfolding nearest_def by fastforce
  have "\<forall>x\<in>set ptr. 0 \<le> x \<and> x < int (length others)"
  proof
    fix x assume "x \<in> set ptr"
    then obtain k where "k < length ptr" "ptr ! k = x" by (auto simp: in_set_conv_nth)
    with l have "np_argmin (map (\<lambda>y. \<bar>y - events ! k\<bar>) others) = Inr x"
      by (auto simp: list_all2_conv_all_nth)
    then show "0 \<le> x \<and> x < int (length others)"
      using np_argmin_range by fastforce
  qed
  then show ?thesis using l by (auto simp: list_all2_lengthD)
qed

section \<open>Auxiliary facts about the loop over the windows\<close>

text \<open>The predicted time stamps of a run are the shifted aligned events of its windows.\<close>

lemma window_loop_aligned:
  "window_loop find_peaks preds t acc idx = Inr acc' \<Longrightarrow>
   \<exists>rs. for_each (window_result find_peaks preds t) idx = Inr rs
     \<and> ipksDUT acc' = ipksDUT acc
         @ concat (map (\<lambda>(i, r). map (shift_aligned (int i * int (window_length preds)))
                                    (fst (snd r))) (zip idx rs))"
proof (induction idx arbitrary: acc)
  case Nil
  then show ?case by simp
next
  case (Cons i idx)
  then obtain r where r: "window_result find_peaks preds t i = Inr r"
    and loop: "window_loop find_peaks preds t
                 (accumulate (int i * int (window_length preds)) acc r) idx = Inr acc'"
    by (auto simp: evaluate_window_def and_then_Inr_iff Let_def)
  from Cons.IH [OF loop] obtain rs where
    rs: "for_each (window_result find_peaks preds t) idx = Inr rs" and
    d: "ipksDUT acc' = ipksDUT (accumulate (int i * int (window_length preds)) acc r)
         @ concat (map (\<lambda>(i, r). map (shift_aligned (int i * int (window_length preds)))
                                    (fst (snd r))) (zip idx rs))"
    by (elim exE conjE)
  have "for_each (window_result find_peaks preds t) (i # idx) = Inr (r # rs)"
    using r rs by (simp add: and_then_Inr)
  moreover have "ipksDUT (accumulate (int i * int (window_length preds)) acc r)
      = ipksDUT acc @ map (shift_aligned (int i * int (window_length preds))) (fst (snd r))"
    by (cases r) (simp add: accumulate_def)
  ultimately show ?case using d by simp
qed

lemma np_get_nat: "np_get xs (int i) = Inr v \<Longrightarrow> i < length xs \<and> v = xs ! i"
  by (auto simp: np_get_def np_index_def and_then_Inr_iff split: if_splits)

lemma np_set_length: "np_set xs i v = Inr ys \<Longrightarrow> length ys = length xs"
  by (auto simp: np_set_def and_then_Inr_iff)

lemma np_put_length: "np_put xs ivs = Inr ys \<Longrightarrow> length ys = length xs"
proof (induction ivs arbitrary: xs)
  case Nil
  then show ?case by simp
next
  case (Cons iv ivs)
  obtain i v where iv: "iv = (i, v)" by (cases iv)
  with Cons.prems obtain xs' where "np_set xs i v = Inr xs'" and "np_put xs' ivs = Inr ys"
    by (auto simp: and_then_Inr_iff)
  then show ?case using Cons.IH np_set_length by fastforce
qed

lemma MetricsGaitEvents_length:
  "MetricsGaitEvents g d a2b b2a = Inr (missed, extra, aligned) \<Longrightarrow> length aligned = length g"
  by (auto simp: MetricsGaitEvents_def Let_def and_then_Inr_iff np_assign_def dest: np_put_length)

lemma window_events_targets:
  "window_events find_peaks predLabel targetLabel = Inr (g, d) \<Longrightarrow>
   g = argwhere (map (\<lambda>y. y = 1) targetLabel)"
  unfolding window_events_def Let_def and_then_Inr_iff by auto


lemma window_result_parts:
  "window_result find_peaks preds t i = Inr r \<Longrightarrow>
   \<exists>predLabel targetLabel g d a2b b2a td missed extra aligned.
      np_get t (int i) = Inr targetLabel
    \<and> window_events find_peaks predLabel targetLabel = Inr (g, d)
    \<and> MetricsGaitEvents g d a2b b2a = Inr (missed, extra, aligned)
    \<and> r = (g, aligned, missed, extra, td)"
  by (clarsimp simp: window_result_def and_then_Inr_iff split: prod.splits) blast


lemma window_result_events:
  "window_result find_peaks preds t i = Inr r \<Longrightarrow>
   fst r = argwhere (map (\<lambda>y. y = 1) (t ! i)) \<and> length (fst (snd r)) = length (fst r)"
  by (clarsimp simp: window_result_def and_then_Inr_iff split: prod.splits
        dest!: np_get_nat window_events_targets MetricsGaitEvents_length)

lemma evaluate_window_lengths:
  assumes "evaluate_window find_peaks preds t acc i = Inr acc'"
  shows "length (ipksGS acc') = length (ipksGS acc) + length (argwhere (map (\<lambda>y. y = 1) (t ! i)))
       \<and> length (ipksDUT acc') = length (ipksDUT acc) + length (argwhere (map (\<lambda>y. y = 1) (t ! i)))"
proof -
  from assms obtain r where r: "window_result find_peaks preds t i = Inr r"
    and acc': "acc' = accumulate (int i * int (window_length preds)) acc r"
    by (auto simp: evaluate_window_def Let_def and_then_Inr_iff)
  have "fst r = argwhere (map (\<lambda>y. y = 1) (t ! i)) \<and> length (fst (snd r)) = length (fst r)"
    using r by (rule window_result_events)
  then show ?thesis using acc' by (cases r) (simp add: accumulate_def)
qed


lemma window_loop_lengths:
  "window_loop find_peaks preds t acc idx = Inr acc' \<Longrightarrow>
   length (ipksGS acc') = length (ipksGS acc)
       + sum_list (map (\<lambda>i. length (argwhere (map (\<lambda>y. y = 1) (t ! i)))) idx)
   \<and> length (ipksDUT acc') = length (ipksDUT acc)
       + sum_list (map (\<lambda>i. length (argwhere (map (\<lambda>y. y = 1) (t ! i)))) idx)"
proof (induction idx arbitrary: acc)
  case Nil
  then show ?case by simp
next
  case (Cons i idx)
  then obtain mid where m: "evaluate_window find_peaks preds t acc i = Inr mid"
    and l: "window_loop find_peaks preds t mid idx = Inr acc'"
    by (auto simp: and_then_Inr_iff)
  show ?case
    using Cons.IH [OF l] evaluate_window_lengths [OF m] by simp
qed

lemma narrowed_range:
  assumes "narrowed xs ys" and "\<forall>x\<in>set xs. 0 \<le> x \<and> x < n"
  shows "\<forall>y\<in>set ys. y = UNMATCHED \<or> (0 \<le> y \<and> y < n)"
proof
  fix y assume "y \<in> set ys"
  then obtain k where k: "k < length ys" "ys ! k = y" by (auto simp: in_set_conv_nth)
  with assms(1) have "k < length xs" "y = xs ! k \<or> y = UNMATCHED"
    by (auto simp: narrowed_def list_all2_conv_all_nth)
  with assms(2) show "y = UNMATCHED \<or> (0 \<le> y \<and> y < n)"
    using nth_mem by blast
qed

lemma evaluate_window_targets:
  assumes "evaluate_window find_peaks preds t acc i = Inr acc'"
  shows "ipksGS acc' = ipksGS acc
           @ map (\<lambda>x. int i * int (window_length preds) + x + 1)
               (argwhere (map (\<lambda>y. y = 1) (t ! i)))"
proof -
  from assms obtain r where r: "window_result find_peaks preds t i = Inr r"
    and acc': "acc' = accumulate (int i * int (window_length preds)) acc r"
    by (auto simp: evaluate_window_def Let_def and_then_Inr_iff)
  have "fst r = argwhere (map (\<lambda>y. y = 1) (t ! i)) \<and> length (fst (snd r)) = length (fst r)"
    using r by (rule window_result_events)
  then show ?thesis using acc' by (cases r) (simp add: accumulate_def)
qed

lemma window_loop_targets:
  "window_loop find_peaks preds t acc idx = Inr acc' \<Longrightarrow>
   ipksGS acc' = ipksGS acc
     @ concat (map (\<lambda>i. map (\<lambda>x. int i * int (window_length preds) + x + 1)
                          (argwhere (map (\<lambda>y. y = 1) (t ! i)))) idx)"
proof (induction idx arbitrary: acc)
  case Nil
  then show ?case by simp
next
  case (Cons i idx)
  then obtain mid where m: "evaluate_window find_peaks preds t acc i = Inr mid"
    and l: "window_loop find_peaks preds t mid idx = Inr acc'"
    by (auto simp: and_then_Inr_iff)
  show ?case
    using Cons.IH [OF l] evaluate_window_targets [OF m] by simp
qed

section \<open>The claims\<close>

subsection \<open>C1: empty inputs\<close>

text \<open>
  C1, as amended. With both lists empty, \<open>compare_events\<close> returns three empty arrays.
  With annotated events and no predicted event it returns one \<open>-999\<close> per annotated
  event as pointers, an empty array of back pointers, and as time differences again one
  \<open>-999\<close> per annotated event (line 108); symmetrically with predicted events only
  (line 111). The time differences are empty only when both lists are.
\<close>

theorem compare_events_empty_inputs:
  "compare_events [] [] thr = Inr ([], [], [])
   \<and> (annotated \<noteq> [] \<longrightarrow>
        compare_events annotated [] thr
          = Inr (replicate (length annotated) UNMATCHED, [],
                 replicate (length annotated) UNMATCHED))
   \<and> (predicted \<noteq> [] \<longrightarrow>
        compare_events [] predicted thr
          = Inr ([], replicate (length predicted) UNMATCHED,
                 replicate (length predicted) UNMATCHED))"
  by (simp add: compare_events_def)

theorem compare_events_empty_inputs_witness:
  "[3, 8] \<noteq> ([] :: int list) \<and> [4] \<noteq> ([] :: int list)
   \<and> compare_events [3, 8] [] 20 = Inr ([UNMATCHED, UNMATCHED], [], [UNMATCHED, UNMATCHED])
   \<and> compare_events [] [4] 20 = Inr ([], [UNMATCHED], [UNMATCHED])"
  using compare_events_empty_inputs [of 20 "[3, 8]" "[4]"]
  by (simp add: numeral_2_eq_2)

text \<open>The claim as stated fails: two annotated events and no predicted event give two
  time differences, one predicted event and no annotated event gives one.\<close>

theorem compare_events_empty_inputs_counterexample:
  "compare_events [3, 8] [] 20 \<noteq> Inr ([UNMATCHED, UNMATCHED], [], [])
   \<and> compare_events [] [4] 20 \<noteq> Inr ([], [UNMATCHED], [])"
  by (simp add: compare_events_def)

subsection \<open>C2: threshold\<close>

text \<open>
  C2 does not hold of the code. For the annotated events 90, 170, 196, the predicted
  events 0, 140, 190 and the threshold 20, the returned back pointer of predicted
  event 0 still names annotated event 90, ninety samples away, the returned time
  difference is \<open>-196\<close>, and the pair 196/190, six samples apart, has lost its back
  pointer.
\<close>

theorem compare_events_beyond_threshold:
  "compare_events [90, 170, 196] [0, 140, 190] 20
     = Inr ([UNMATCHED, UNMATCHED, 2], [0, UNMATCHED, UNMATCHED], [- 196])"
  by code_simp

subsection \<open>C3: reciprocity\<close>

text \<open>
  C3 does not hold of the code. For the annotated events 5, 12, 15, the predicted events
  0, 9, 14 and the threshold 20, the nearest candidates are \<open>a2b = [1, 2, 2]\<close> and
  \<open>b2a = [0, 1, 2]\<close>; the three passes of lines 144-150 leave the back pointer of
  predicted event 0 at annotated event 0, whose own pointer is \<open>-999\<close>.
\<close>

theorem compare_events_not_reciprocal:
  "nearest [5, 12, 15] [0, 9, 14] = Inr [1, 2, 2]
   \<and> nearest [0, 9, 14] [5, 12, 15] = Inr [0, 1, 2]
   \<and> compare_events [5, 12, 15] [0, 9, 14] 20
     = Inr ([UNMATCHED, UNMATCHED, 2], [0, UNMATCHED, 2], [- 15, - 1])"
  by code_simp

subsection \<open>C4: count conservation\<close>

text \<open>
  C4 does not hold of the code. For the annotated events 6, 15, 20, the predicted events
  0, 11, 18, 21 and the threshold 20, two of three annotated pointers and two of four
  back pointers are \<open>-999\<close>: no number of matched pairs completes both sums, and
  \<open>MetricsGaitEvents\<close> raises ValueError at line 206.
\<close>

theorem count_conservation_fails:
  "compare_events [6, 15, 20] [0, 11, 18, 21] 20
     = Inr ([UNMATCHED, UNMATCHED, 3], [0, UNMATCHED, UNMATCHED, 2], [- 20, 1])
   \<and> count_unmatched [UNMATCHED, UNMATCHED, 3] = 2
   \<and> count_unmatched [0, UNMATCHED, UNMATCHED, 2] = 2
   \<and> MetricsGaitEvents [6, 15, 20] [0, 11, 18, 21]
        [UNMATCHED, UNMATCHED, 3] [0, UNMATCHED, UNMATCHED, 2] = Inl ValueError"
  by code_simp

subsection \<open>C5: scenario B\<close>

text \<open>
  C5. For the annotated events 100, 105, the predicted event 102 and the threshold 20,
  both annotated events have the predicted event as nearest candidate, the predicted
  event points back to annotated event 100, the resolution keeps that pointer and sets
  the pointer of 105 to \<open>-999\<close>; one event is missed and none is extra.
\<close>

theorem scenario_B:
  "nearest [100, 105] [102] = Inr [0, 0]
   \<and> nearest [102] [100, 105] = Inr [0]
   \<and> resolve_loop [0] [0, 0] (unique [0, 0]) = Inr [0, UNMATCHED]
   \<and> compare_events [100, 105] [102] 20 = Inr ([0, UNMATCHED], [0], [2])
   \<and> MetricsGaitEvents [100, 105] [102] [0, UNMATCHED] [0] = Inr (1, 0, [102, UNMATCHED])"
  by code_simp

subsection \<open>C6: aligned predictions\<close>

text \<open>
  C6 does not hold of the code. For the annotated events 90, 170, 196, the predicted
  events 0, 140, 190 and the threshold 20, annotated event 196 keeps its pointer to
  predicted event 190, and \<open>MetricsGaitEvents\<close> puts predicted event 0 in its place.
\<close>

theorem aligned_predictions_wrong_event:
  "and_then (compare_events [90, 170, 196] [0, 140, 190] 20)
     (\<lambda>(a2b, b2a, time_diff). MetricsGaitEvents [90, 170, 196] [0, 140, 190] a2b b2a)
     = Inr (2, 2, [UNMATCHED, UNMATCHED, 0])"
  by code_simp

subsection \<open>C7: window offsets\<close>

text \<open>
  C7, as amended. When \<open>modelEvaluate\<close> returns, its ground-truth time stamps are, window
  after window, the local indices of the target events shifted by \<open>i * L + 1\<close>, and its
  predicted time stamps are the aligned events of the windows, \<open>-999\<close> turned into
  \<open>nan\<close> and every other index shifted by \<open>i * L + 1\<close>. In particular two windows of
  length 200 with a target event at index 10 of window 0 and index 5 of window 1 give
  the ground-truth time stamps 11 and 206.
\<close>

theorem modelEvaluate_offsets:
  assumes "modelEvaluate find_peaks preds t = Inr (extra, missed, dut, gs)"
  shows "gs = concat (map (\<lambda>i. map (\<lambda>x. int i * int (window_length preds) + x + 1)
                                (argwhere (map (\<lambda>y. y = 1) (t ! i)))) [0..<length preds])
    \<and> (\<exists>rs. for_each (window_result find_peaks preds t) [0..<length preds] = Inr rs
          \<and> dut = concat (map (\<lambda>(i, r). map (shift_aligned (int i * int (window_length preds)))
                                          (fst (snd r))) (zip [0..<length preds] rs)))
    \<and> (length preds = 2 \<and> window_length preds = 200
          \<and> argwhere (map (\<lambda>y. y = 1) (t ! 0)) = [10]
          \<and> argwhere (map (\<lambda>y. y = 1) (t ! 1)) = [5] \<longrightarrow> gs = [11, 206])"
proof -
  from assms obtain acc' where
    loop: "window_loop find_peaks preds t \<lparr> missedEvents = 0, extraEvents = 0, GSevents = 0,
       Differences = [], ipksDUT = [], ipksGS = [] \<rparr> [0..<length preds] = Inr acc'"
    and dut: "dut = ipksDUT acc'" and gs: "gs = ipksGS acc'"
    by (auto simp: modelEvaluate_def Let_def and_then_Inr_iff)
  have g: "gs = concat (map (\<lambda>i. map (\<lambda>x. int i * int (window_length preds) + x + 1)
                                (argwhere (map (\<lambda>y. y = 1) (t ! i)))) [0..<length preds])"
    using window_loop_targets [OF loop] gs by simp
  have d: "\<exists>rs. for_each (window_result find_peaks preds t) [0..<length preds] = Inr rs
          \<and> dut = concat (map (\<lambda>(i, r). map (shift_aligned (int i * int (window_length preds)))
                                          (fst (snd r))) (zip [0..<length preds] rs))"
    using window_loop_aligned [OF loop] dut by simp
  have s: "gs = [11, 206]"
    if "length preds = 2 \<and> window_length preds = 200
          \<and> argwhere (map (\<lambda>y. y = 1) (t ! 0)) = [10]
          \<and> argwhere (map (\<lambda>y. y = 1) (t ! 1)) = [5]"
  proof -
    have "[0..<length preds] = [0, 1]" using that by (simp add: upt_rec)
    then show ?thesis using g that by simp
  qed
  show ?thesis using g d s by (intro conjI impI)
qed

theorem modelEvaluate_offsets_witness:
  "modelEvaluate no_peaks [replicate 200 0, replicate 200 0]
       [(replicate 200 0)[10 := 1], (replicate 200 0)[5 := 1]]
     = Inr (0, 2, [None, None], [11, 206])
   \<and> (length [replicate 200 (0::real), replicate 200 0] = 2
        \<and> window_length [replicate 200 0, replicate 200 0] = 200
        \<and> argwhere (map (\<lambda>y. y = 1)
              ([(replicate 200 0)[10 := 1], (replicate 200 (0::real))[5 := 1]] ! 0)) = [10]
        \<and> argwhere (map (\<lambda>y. y = 1)
              ([(replicate 200 0)[10 := 1], (replicate 200 (0::real))[5 := 1]] ! 1)) = [5])
   \<and> [11, 206]
       = concat (map (\<lambda>i. map (\<lambda>x. int i * int (window_length [replicate 200 0, replicate 200 0]) + x + 1)
                   (argwhere (map (\<lambda>y. y = 1)
                      ([(replicate 200 0)[10 := 1], (replicate 200 (0::real))[5 := 1]] ! i))))
                 [0..<length [replicate 200 (0::real), replicate 200 0]])"
proof -
  have m: "modelEvaluate no_peaks [replicate 200 0, replicate 200 0]
       [(replicate 200 0)[10 := 1], (replicate 200 0)[5 := 1]]
     = Inr (0, 2, [None, None], [11, 206])"
    by code_simp
  have h: "length [replicate 200 (0::real), replicate 200 0] = 2
        \<and> window_length [replicate 200 0, replicate 200 0] = 200
        \<and> argwhere (map (\<lambda>y. y = 1)
              ([(replicate 200 0)[10 := 1], (replicate 200 (0::real))[5 := 1]] ! 0)) = [10]
        \<and> argwhere (map (\<lambda>y. y = 1)
              ([(replicate 200 0)[10 := 1], (replicate 200 (0::real))[5 := 1]] ! 1)) = [5]"
    by code_simp
  have "[11, 206] = [11, 206 :: int]"
    by (rule modelEvaluate_offsets [OF m, THEN conjunct2, THEN conjunct2, THEN mp, OF h])
  show ?thesis
    by (rule conjI [OF m conjI [OF h modelEvaluate_offsets [OF m, THEN conjunct1]]])
qed

text \<open>The claim as stated fails: the second time stamp is 206, not 215.\<close>

theorem modelEvaluate_offsets_counterexample:
  "modelEvaluate no_peaks [replicate 200 0, replicate 200 0]
       [(replicate 200 0)[10 := 1], (replicate 200 0)[5 := 1]]
     = Inr (0, 2, [None, None], [11, 206])
   \<and> modelEvaluate no_peaks [replicate 200 0, replicate 200 0]
       [(replicate 200 0)[10 := 1], (replicate 200 0)[5 := 1]]
     \<noteq> Inr (0, 2, [None, None], [11, 215])"
  by code_simp

subsection \<open>C8: scenario A\<close>

text \<open>
  C8. For the annotated events 50, 150, the predicted events 52, 300 and the threshold
  20, the events 50 and 52 are matched with time difference 2, annotated event 150 is
  missed and predicted event 300 is extra.
\<close>

theorem scenario_A:
  "compare_events [50, 150] [52, 300] 20 = Inr ([0, UNMATCHED], [0, UNMATCHED], [2])
   \<and> MetricsGaitEvents [50, 150] [52, 300] [0, UNMATCHED] [0, UNMATCHED]
     = Inr (1, 1, [52, UNMATCHED])"
  by code_simp

subsection \<open>C9: parallel time stamps\<close>

text \<open>
  C9. Every window that is evaluated appends as many entries to the ground-truth time
  stamps as to the predicted time stamps, namely the number of its target events; so
  the two sequences that \<open>modelEvaluate\<close> returns have the same length, the number of
  target events of all windows.
\<close>

theorem modelEvaluate_parallel_sequences:
  "(evaluate_window find_peaks preds t acc i = Inr acc' \<longrightarrow>
      length (ipksGS acc') = length (ipksGS acc) + length (argwhere (map (\<lambda>y. y = 1) (t ! i)))
    \<and> length (ipksDUT acc') = length (ipksDUT acc) + length (argwhere (map (\<lambda>y. y = 1) (t ! i))))
   \<and> (modelEvaluate find_peaks preds t = Inr (extra, missed, dut, gs) \<longrightarrow>
      length dut = length gs
    \<and> length gs = sum_list (map (\<lambda>i. length (argwhere (map (\<lambda>y. y = 1) (t ! i)))) [0..<length preds]))"
proof (intro conjI impI)
  assume "modelEvaluate find_peaks preds t = Inr (extra, missed, dut, gs)"
  then obtain acc' where
    loop: "window_loop find_peaks preds t \<lparr> missedEvents = 0, extraEvents = 0, GSevents = 0,
       Differences = [], ipksDUT = [], ipksGS = [] \<rparr> [0..<length preds] = Inr acc'"
    and "dut = ipksDUT acc'" and "gs = ipksGS acc'"
    by (auto simp: modelEvaluate_def Let_def and_then_Inr_iff)
  with window_loop_lengths [OF loop]
  show "length dut = length gs"
    and "length gs = sum_list (map (\<lambda>i. length (argwhere (map (\<lambda>y. y = 1) (t ! i)))) [0..<length preds])"
    by simp_all
next
  assume "evaluate_window find_peaks preds t acc i = Inr acc'"
  from evaluate_window_lengths [OF this]
  show "length (ipksGS acc') = length (ipksGS acc) + length (argwhere (map (\<lambda>y. y = 1) (t ! i)))"
    and "length (ipksDUT acc') = length (ipksDUT acc) + length (argwhere (map (\<lambda>y. y = 1) (t ! i)))"
    by simp_all
qed

theorem modelEvaluate_parallel_sequences_witness:
  "evaluate_window no_peaks [[1, 0, 0], [0, 0, 0]] [[0, 1, 0], [0, 0, 1]]
       \<lparr> missedEvents = 0, extraEvents = 0, GSevents = 0, Differences = [],
         ipksDUT = [], ipksGS = [] \<rparr> 0
     = Inr \<lparr> missedEvents = 0, extraEvents = 0, GSevents = 1, Differences = [- 1],
             ipksDUT = [Some 1], ipksGS = [2] \<rparr>
   \<and> modelEvaluate no_peaks [[1, 0, 0], [0, 0, 0]] [[0, 1, 0], [0, 0, 1]]
     = Inr (0, 1, [Some 1, None], [2, 6])
   \<and> length [Some (1::int)] = 0 + length (argwhere [False, True, False])
   \<and> length [Some (1::int), None] = length [2, 6::int]"
proof -
  have w: "evaluate_window no_peaks [[1, 0, 0], [0, 0, 0]] [[0, 1, 0], [0, 0, 1]]
       \<lparr> missedEvents = 0, extraEvents = 0, GSevents = 0, Differences = [],
         ipksDUT = [], ipksGS = [] \<rparr> 0
     = Inr \<lparr> missedEvents = 0, extraEvents = 0, GSevents = 1, Differences = [- 1],
             ipksDUT = [Some 1], ipksGS = [2] \<rparr>"
    by code_simp
  have m: "modelEvaluate no_peaks [[1, 0, 0], [0, 0, 0]] [[0, 1, 0], [0, 0, 1]]
     = Inr (0, 1, [Some 1, None], [2, 6])"
    by code_simp
  note inst = modelEvaluate_parallel_sequences
    [of no_peaks "[[1, 0, 0], [0, 0, 0]]" "[[0, 1, 0], [0, 0, 1]]"
        "\<lparr> missedEvents = 0, extraEvents = 0, GSevents = 0, Differences = [],
           ipksDUT = [], ipksGS = [] \<rparr>"
        0
        "\<lparr> missedEvents = 0, extraEvents = 0, GSevents = 1, Differences = [- 1],
             ipksDUT = [Some 1], ipksGS = [2] \<rparr>"
        0 1 "[Some 1, None]" "[2, 6]"]
  have c1: "length [Some (1::int)] = 0 + length (argwhere [False, True, False])"
    using inst [THEN conjunct1, THEN mp, OF w, THEN conjunct2] by simp
  have c2: "length [Some (1::int), None] = length [2, 6::int]"
    by (rule inst [THEN conjunct2, THEN mp, OF m, THEN conjunct1])
  show ?thesis
    by (rule conjI [OF w conjI [OF m conjI [OF c1 c2]]])
qed

subsection \<open>C10: range of the pointers\<close>

text \<open>
  C10. For non-empty lists, whenever \<open>compare_events\<close> returns, both pointer arrays are
  as long as their event lists, every entry of \<open>a2b\<close> is \<open>-999\<close> or an index into the
  predicted list, every entry of \<open>b2a\<close> is \<open>-999\<close> or an index into the annotated list,
  and each array is the array of nearest candidates with some entries replaced by
  \<open>-999\<close>.
\<close>

theorem compare_events_pointers:
  assumes "annotated \<noteq> []" and "predicted \<noteq> []"
    and "compare_events annotated predicted thr = Inr (a2b, b2a, time_diff)"
  shows "length a2b = length annotated \<and> length b2a = length predicted
    \<and> (\<forall>j\<in>set a2b. j = UNMATCHED \<or> (0 \<le> j \<and> j < int (length predicted)))
    \<and> (\<forall>i\<in>set b2a. i = UNMATCHED \<or> (0 \<le> i \<and> i < int (length annotated)))
    \<and> (\<exists>a2b0 b2a0. nearest annotated predicted = Inr a2b0
          \<and> nearest predicted annotated = Inr b2a0
          \<and> narrowed a2b0 a2b \<and> narrowed b2a0 b2a)"
proof -
  from assms obtain a2b0 b2a0 a2b1 b2a1 a2b2 b2a2 a2b3 td ia ib where
    n1: "nearest annotated predicted = Inr a2b0" and
    n2: "nearest predicted annotated = Inr b2a0" and
    r1: "resolve_loop b2a0 a2b0 (unique a2b0) = Inr a2b1" and
    r2: "resolve_loop a2b1 b2a0 (unique b2a0) = Inr b2a1" and
    d1: "drop_dangling a2b1 (argwhere (gt_mask a2b1 UNMATCHED)) b2a1 = Inr a2b2" and
    d2: "drop_dangling b2a1 (argwhere (gt_mask b2a1 UNMATCHED)) a2b2 = Inr b2a2" and
    d3: "drop_dangling a2b2 (argwhere (gt_mask a2b2 UNMATCHED)) b2a2 = Inr a2b3" and
    rj: "reject_loop thr td ia ib (a2b3, b2a2) (rev [0..<length td]) = Inr (a2b, b2a)"
    by (auto simp: compare_events_def and_then_Inr_iff Let_def split: prod.splits)
  have na: "narrowed a2b0 a2b"
    using r1 d1 d3 rj resolve_loop_narrowed drop_dangling_narrowed reject_loop_narrowed
      narrowed_trans by meson
  have nb: "narrowed b2a0 b2a"
    using r2 d2 rj resolve_loop_narrowed drop_dangling_narrowed reject_loop_narrowed
      narrowed_trans by meson
  have ra: "length a2b0 = length annotated
      \<and> (\<forall>x\<in>set a2b0. 0 \<le> x \<and> x < int (length predicted))"
    using n1 by (rule nearest_range)
  have rb: "length b2a0 = length predicted
      \<and> (\<forall>x\<in>set b2a0. 0 \<le> x \<and> x < int (length annotated))"
    using n2 by (rule nearest_range)
  show ?thesis
    using na nb ra rb n1 n2 narrowed_range[OF na] narrowed_range[OF nb] narrowed_length
    by auto
qed

theorem compare_events_pointers_witness:
  "[50, 150] \<noteq> ([]::int list) \<and> [52, 300] \<noteq> ([]::int list)
   \<and> compare_events [50, 150] [52, 300] 20 = Inr ([0, - 999], [0, - 999], [2])
   \<and> length [0, - 999 :: int] = length [50, 150 :: int]
   \<and> list_all (\<lambda>j. j = UNMATCHED \<or> (0 \<le> j \<and> j < int (length [52, 300 :: int]))) [0, - 999]
   \<and> list_all (\<lambda>i. i = UNMATCHED \<or> (0 \<le> i \<and> i < int (length [50, 150 :: int]))) [0, - 999]"
proof -
  have h: "compare_events [50, 150] [52, 300] 20 = Inr ([0, - 999], [0, - 999], [2])"
    by code_simp
  show ?thesis
    using h compare_events_pointers [OF _ _ h] by (simp add: list_all_iff)
qed

end
